theory Spec2Isabelle
  imports Main
begin

section \<open>Python values, exceptions and results\<close>

text \<open>
  The module \<^verbatim>\<open>mrjob/fs/s3.py\<close> is modelled function by function. A Python
  value that may be \<^verbatim>\<open>None\<close> is an \<open>option\<close>; an exception is a value of
  \<open>exn\<close>, and a call that may raise returns \<open>exn + 'a\<close> with \<open>Inl\<close> for the
  exception.
\<close>

datatype pyval = PInt int | PStr string

text \<open>
  The response that a botocore \<^verbatim>\<open>ClientError\<close> carries. The module reads
  \<^verbatim>\<open>ex.response.get('Error', {}).get('Code', '')\<close> (\<open>err_code\<close>) and
  \<^verbatim>\<open>ex.response.get('Error', {}).get('HTTPStatusCode')\<close> (\<open>err_status\<close>); a missing
  \<^verbatim>\<open>'Error'\<close> entry reads like one with neither key. botocore itself puts the HTTP
  status of the response under \<^verbatim>\<open>response['ResponseMetadata']['HTTPStatusCode']\<close>
  (\<open>http_status\<close>) and gives the \<^verbatim>\<open>'Error'\<close> entry a code and a message only, so
  the errors it raises have \<open>err_status = None\<close>.
\<close>

record error_response =
  err_code :: "string option"
  err_status :: "int option"
  http_status :: "int option"

datatype exn =
    ClientError error_response   \<comment> \<open>\<^verbatim>\<open>botocore.exceptions.ClientError\<close>\<close>
  | S3ResponseError int          \<comment> \<open>\<^verbatim>\<open>boto.exception.S3ResponseError\<close>, with its status\<close>
  | SocketError "pyval list"     \<comment> \<open>\<^verbatim>\<open>socket.error\<close>, with its \<^verbatim>\<open>args\<close>\<close>
  | NameError
  | ImportError
  | AttributeError
  | TypeError
  | ValueError
  | OSError
  | OtherError string

text \<open>Truthiness of an optional string: \<^verbatim>\<open>None\<close> and \<^verbatim>\<open>''\<close> are false.\<close>

definition truthy :: "string option \<Rightarrow> bool" where
  "truthy s = (case s of None \<Rightarrow> False | Some v \<Rightarrow> v \<noteq> [])"

definition startswith :: "string \<Rightarrow> string \<Rightarrow> bool" where
  "startswith s p = (take (length p) s = p)"

definition endswith :: "string \<Rightarrow> string \<Rightarrow> bool" where
  "endswith s p = (length p \<le> length s \<and> drop (length s - length p) s = p)"

text \<open>\<^verbatim>\<open>c in code\<close> on strings: \<open>c\<close> occurs in \<open>code\<close> as a substring.\<close>

fun str_in :: "string \<Rightarrow> string \<Rightarrow> bool" where
  "str_in c [] = (c = [])"
| "str_in c (x # xs) = (startswith (x # xs) c \<or> str_in c xs)"

section \<open>Retry classification\<close>

definition is_retriable_client_error :: "exn \<Rightarrow> bool" where
  "is_retriable_client_error ex =
     (case ex of
        ClientError response \<Rightarrow>
          (let code = (case err_code response of None \<Rightarrow> [] | Some c \<Rightarrow> c) in
           if list_ex (\<lambda>c. str_in c code) [''Throttl'', ''RequestExpired'', ''Timeout'']
           then True
           else err_status response = Some 505)
      | SocketError args \<Rightarrow>
          args \<in> set [[PInt 104, PStr ''Connection reset by peer''],
                      [PInt 110, PStr ''Connection timed out'']]
      | _ \<Rightarrow> False)"

text \<open>
  The classes of error that the specification lists as retryable, each as a predicate
  of its own, in the specification's words.
\<close>

definition indicates_throttling :: "exn \<Rightarrow> bool" where
  "indicates_throttling ex =
     (case ex of ClientError r \<Rightarrow> (case err_code r of None \<Rightarrow> False | Some c \<Rightarrow> str_in ''Throttl'' c)
      | _ \<Rightarrow> False)"

definition indicates_expired_signature :: "exn \<Rightarrow> bool" where
  "indicates_expired_signature ex =
     (case ex of ClientError r \<Rightarrow> (case err_code r of None \<Rightarrow> False | Some c \<Rightarrow> str_in ''RequestExpired'' c)
      | _ \<Rightarrow> False)"

definition has_http_505 :: "exn \<Rightarrow> bool" where
  "has_http_505 ex = (case ex of ClientError r \<Rightarrow> http_status r = Some 505 | _ \<Rightarrow> False)"

text \<open>
  Whether 505 stands anywhere in the exception: as the HTTP status of the response, or
  under the key that the code reads.
\<close>

definition mentions_505 :: "exn \<Rightarrow> bool" where
  "mentions_505 ex =
     (case ex of ClientError r \<Rightarrow> http_status r = Some 505 \<or> err_status r = Some 505
      | _ \<Rightarrow> False)"

definition is_connection_reset :: "exn \<Rightarrow> bool" where
  "is_connection_reset ex = (ex = SocketError [PInt 104, PStr ''Connection reset by peer''])"

definition is_connection_timed_out :: "exn \<Rightarrow> bool" where
  "is_connection_timed_out ex = (ex = SocketError [PInt 110, PStr ''Connection timed out''])"

text \<open>The class the code adds to them: an error code that mentions a timeout.\<close>

definition indicates_timeout_code :: "exn \<Rightarrow> bool" where
  "indicates_timeout_code ex =
     (case ex of ClientError r \<Rightarrow> (case err_code r of None \<Rightarrow> False | Some c \<Rightarrow> str_in ''Timeout'' c)
      | _ \<Rightarrow> False)"

definition spec_retryable :: "exn \<Rightarrow> bool" where
  "spec_retryable ex =
     (indicates_throttling ex \<or> indicates_expired_signature ex \<or> has_http_505 ex
      \<or> is_connection_reset ex \<or> is_connection_timed_out ex)"

section \<open>Construction and client keyword arguments\<close>

text \<open>
  Modelled from the spec: \<^verbatim>\<open>urlparse(uri).scheme\<close> of \<^verbatim>\<open>mrjob.parse\<close>, which is not
  part of the sources at hand. The specification writes a URI as
  \<^verbatim>\<open>scheme://bucket/key\<close>; \<open>split_scheme\<close> cuts a string at its first \<^verbatim>\<open>://\<close>.
\<close>

fun split_scheme :: "string \<Rightarrow> (string \<times> string) option" where
  "split_scheme [] = None"
| "split_scheme (c # cs) =
     (if startswith (c # cs) ''://'' then Some ([], drop 3 (c # cs))
      else (case split_scheme cs of None \<Rightarrow> None | Some (s, r) \<Rightarrow> Some (c # s, r)))"

definition urlparse_scheme :: "string \<Rightarrow> string" where
  "urlparse_scheme uri = (case split_scheme uri of None \<Rightarrow> [] | Some (s, r) \<Rightarrow> s)"

text \<open>
  Modelled from the spec: \<^verbatim>\<open>is_uri\<close> of \<^verbatim>\<open>mrjob.parse\<close> (the specification's
  \<^verbatim>\<open>is_generic_uri\<close>): the string has a scheme.
\<close>

definition is_uri :: "string \<Rightarrow> bool" where
  "is_uri uri = (urlparse_scheme uri \<noteq> [])"

definition endpoint_url :: "string option \<Rightarrow> string option" where
  "endpoint_url host_or_uri =
     (if \<not> truthy host_or_uri then host_or_uri
      else if is_uri (the host_or_uri) then host_or_uri
      else Some (''https://'' @ the host_or_uri))"

record s3_filesystem =
  s3_endpoint_url :: "string option"
  s3_region :: "string option"
  aws_access_key_id :: "string option"
  aws_secret_access_key :: "string option"
  aws_session_token :: "string option"

definition S3Filesystem_init ::
  "string option \<Rightarrow> string option \<Rightarrow> string option \<Rightarrow> string option \<Rightarrow> string option
   \<Rightarrow> s3_filesystem" where
  "S3Filesystem_init access_key secret_key session_token s3_endpoint region =
     \<lparr> s3_endpoint_url = endpoint_url s3_endpoint,
       s3_region = region,
       aws_access_key_id = access_key,
       aws_secret_access_key = secret_key,
       aws_session_token = session_token \<rparr>"

record kwargs =
  kw_aws_access_key_id :: "string option"
  kw_aws_secret_access_key :: "string option"
  kw_aws_session_token :: "string option"
  kw_endpoint_url :: "string option"
  kw_region_name :: "string option"

definition client_kwargs :: "s3_filesystem \<Rightarrow> string option \<Rightarrow> kwargs" where
  "client_kwargs self region_name =
     (let (endpoint, region) =
            (if truthy (s3_endpoint_url self) then (s3_endpoint_url self, s3_region self)
             else (None, region_name))
      in \<lparr> kw_aws_access_key_id = aws_access_key_id self,
           kw_aws_secret_access_key = aws_secret_access_key self,
           kw_aws_session_token = aws_session_token self,
           kw_endpoint_url = endpoint,
           kw_region_name = region \<rparr>)"

section \<open>The storage service as the module sees it\<close>

text \<open>
  A client, a resource and a bucket handle each carry the keyword arguments they were
  created with. The service is a record of what it answers: the outcome of
  \<^verbatim>\<open>get_bucket_location\<close> (after the retry wrapper has given up or succeeded) and the
  keys a prefix scan returns. \<open>trace\<close> records log lines and location-metadata calls in
  the order they happen. The two flags say whether the optional imports at the top of
  the module succeeded.
\<close>

datatype s3_client = S3Client (client_kw: kwargs)

datatype s3_resource = S3Resource (resource_kw: kwargs)

datatype s3_bucket = Bucket (bucket_kw: kwargs) (bucket_name: string)

datatype event =
    LogDebug string
  | LogWarning string
  | GetBucketLocation kwargs string

record world =
  boto_installed :: bool
  boto3_installed :: bool
  bucket_location :: "kwargs \<Rightarrow> string \<Rightarrow> exn + string option"
  objects_filter :: "s3_bucket \<Rightarrow> string \<Rightarrow> string list"
  trace :: "event list"

type_synonym 'a action = "world \<Rightarrow> (exn + 'a) \<times> world"

text \<open>
  A key object, as far as the module uses one: its attribute \<^verbatim>\<open>size\<close> and its method
  \<^verbatim>\<open>set_contents_from_string\<close>, which does whatever the object at hand does.
\<close>

record s3_key =
  key_size :: "int option"
  set_contents_from_string :: "string \<Rightarrow> unit action"

definition and_then :: "'a action \<Rightarrow> ('a \<Rightarrow> 'b action) \<Rightarrow> 'b action" where
  "and_then m f w = (case m w of (Inl e, w') \<Rightarrow> (Inl e, w') | (Inr x, w') \<Rightarrow> f x w')"

definition emit :: "event \<Rightarrow> world \<Rightarrow> world" where
  "emit ev w = w\<lparr>trace := trace w @ [ev]\<rparr>"

text \<open>
  Modelled from the spec: the constant \<^verbatim>\<open>_S3_REGION_WITH_NO_LOCATION_CONSTRAINT\<close> of
  \<^verbatim>\<open>mrjob.aws\<close>, "a specific well-known region, not a null value".
\<close>

definition S3_REGION_WITH_NO_LOCATION_CONSTRAINT :: string where
  "S3_REGION_WITH_NO_LOCATION_CONSTRAINT = ''us-east-1''"

definition get_bucket_region :: "s3_client \<Rightarrow> string \<Rightarrow> string action" where
  "get_bucket_region client name w =
     (let w' = emit (GetBucketLocation (client_kw client) name) w in
      case bucket_location w (client_kw client) name of
        Inl e \<Rightarrow> (Inl e, w')
      | Inr location \<Rightarrow>
          (Inr (if truthy location then the location
                else S3_REGION_WITH_NO_LOCATION_CONSTRAINT), w'))"

text \<open>\<^verbatim>\<open>kwargs['endpoint_url'] or kwargs['region_name'] or 'default'\<close>\<close>

definition endpoint_or_region :: "kwargs \<Rightarrow> string" where
  "endpoint_or_region kw =
     (if truthy (kw_endpoint_url kw) then the (kw_endpoint_url kw)
      else if truthy (kw_region_name kw) then the (kw_region_name kw)
      else ''default'')"

definition make_s3_resource :: "s3_filesystem \<Rightarrow> string option \<Rightarrow> s3_resource action" where
  "make_s3_resource self region_name w =
     (if \<not> boto3_installed w then (Inl ImportError, w)
      else let kw = client_kwargs self region_name in
        (Inr (S3Resource kw),
         emit (LogDebug (''creating S3 resource ('' @ endpoint_or_region kw @ '')'')) w))"

definition make_s3_client :: "s3_filesystem \<Rightarrow> string option \<Rightarrow> s3_client action" where
  "make_s3_client self region_name w =
     (if \<not> boto3_installed w then (Inl ImportError, w)
      else let kw = client_kwargs self region_name in
        (Inr (S3Client kw),
         emit (LogDebug (''creating S3 client ('' @ endpoint_or_region kw @ '')'')) w))"

text \<open>
  \<^verbatim>\<open>get_bucket\<close>. The handler \<^verbatim>\<open>except botocore.exceptions.ClientError:\<close> binds no
  name, and its first statement reads \<^verbatim>\<open>ex.response\<close>: \<^verbatim>\<open>ex\<close> is neither a local
  nor a module-level name, so entering the handler raises \<^verbatim>\<open>NameError\<close>. The status
  test, the warning and \<^verbatim>\<open>region_name = None\<close> behind it are never reached. Any other
  exception of the lookup passes the handler by.
\<close>

definition get_bucket :: "s3_filesystem \<Rightarrow> string \<Rightarrow> s3_bucket action" where
  "get_bucket self name =
     and_then (make_s3_client self None) (\<lambda>client w1.
       case get_bucket_region client name w1 of
         (Inl (ClientError response), w2) \<Rightarrow> (Inl NameError, w2)
       | (Inl e, w2) \<Rightarrow> (Inl e, w2)
       | (Inr region_name, w2) \<Rightarrow>
           and_then (make_s3_resource self (Some region_name))
             (\<lambda>resource w3. (Inr (Bucket (resource_kw resource) name), w3)) w2)"

section \<open>Paths and globs\<close>

text \<open>
  Modelled from the spec: \<^verbatim>\<open>parse_s3_uri\<close> of \<^verbatim>\<open>mrjob.parse\<close> (the specification's
  \<^verbatim>\<open>parse_locator\<close>). A locator is parsed from \<^verbatim>\<open>scheme://bucket/key\<close>; the key may be
  empty, the bucket name is non-empty and the scheme is a recognised one (\<^verbatim>\<open>s3\<close> and
  \<^verbatim>\<open>s3n\<close>, the two that the comments of \<^verbatim>\<open>ls\<close> name). Anything else is not an S3 URI
  and raises \<^verbatim>\<open>ValueError\<close>.
\<close>

definition parse_s3_uri :: "string \<Rightarrow> exn + (string \<times> string)" where
  "parse_s3_uri uri =
     (case split_scheme uri of
        None \<Rightarrow> Inl ValueError
      | Some (scheme, rest) \<Rightarrow>
          let bucket = takeWhile (\<lambda>c. c \<noteq> CHR ''/'') rest;
              path = dropWhile (\<lambda>c. c \<noteq> CHR ''/'') rest
          in if scheme \<in> set [''s3'', ''s3n''] \<and> path \<noteq> [] \<and> bucket \<noteq> []
             then Inr (bucket, tl path) else Inl ValueError)"

text \<open>
  Modelled from the spec: \<^verbatim>\<open>GLOB_RE\<close> of \<^verbatim>\<open>mrjob.runner\<close>, "a pattern matcher that,
  given a path containing \<^verbatim>\<open>?\<close>/\<^verbatim>\<open>*\<close> wildcards, returns the longest literal prefix
  before the first wildcard". \<open>GLOB_RE_match\<close> is \<^verbatim>\<open>GLOB_RE.match(path).group(1)\<close>, and
  \<open>None\<close> when the path has no wildcard.
\<close>

definition wildcard :: "char \<Rightarrow> bool" where
  "wildcard c = (c = CHR ''*'' \<or> c = CHR ''?'')"

definition GLOB_RE_match :: "string \<Rightarrow> string option" where
  "GLOB_RE_match path =
     (if list_ex wildcard path then Some (takeWhile (\<lambda>c. \<not> wildcard c) path) else None)"

subsection \<open>Shell patterns\<close>

text \<open>
  \<^verbatim>\<open>fnmatch.fnmatchcase\<close> of the Python standard library: the pattern is translated piece
  by piece (\<^verbatim>\<open>*\<close> matches everything, \<^verbatim>\<open>?\<close> any single character, \<^verbatim>\<open>[seq]\<close> any
  character in \<^verbatim>\<open>seq\<close>, \<^verbatim>\<open>[!seq]\<close> any character not in it, every other character
  itself) and the whole name must match, with no case folding.
\<close>

datatype pattern_item =
    Star
  | AnyChar
  | CharClass bool "(char \<times> char) list"   \<comment> \<open>negated?, then the ranges \<open>lo-hi\<close>\<close>
  | Literal char

text \<open>
  The inside of a bracket: \<open>x-y\<close> is a range, any other character stands for itself.
\<close>

fun class_ranges :: "string \<Rightarrow> (char \<times> char) list" where
  "class_ranges (lo # m # hi # rest) =
     (if m = CHR ''-'' then (lo, hi) # class_ranges rest
      else (lo, lo) # class_ranges (m # hi # rest))"
| "class_ranges (c # rest) = (c, c) # class_ranges rest"
| "class_ranges [] = []"

text \<open>
  The scan for the closing bracket, on the text after \<^verbatim>\<open>[\<close>: an initial \<^verbatim>\<open>!\<close> and
  then an initial \<^verbatim>\<open>]\<close> are skipped, and the bracket closes at the next \<^verbatim>\<open>]\<close>. The
  result is the bracket's contents and the rest of the pattern, or \<open>None\<close> when the
  bracket never closes.
\<close>

definition bracket_split :: "string \<Rightarrow> (string \<times> string) option" where
  "bracket_split r =
     (let j0 = (if 0 < length r \<and> r ! 0 = CHR ''!'' then 1 else 0);
          j1 = (if j0 < length r \<and> r ! j0 = CHR '']'' then j0 + 1 else j0);
          j = j1 + length (takeWhile (\<lambda>c. c \<noteq> CHR '']'') (drop j1 r))
      in if j \<ge> length r then None else Some (take j r, drop (j + 1) r))"

function translate :: "string \<Rightarrow> pattern_item list" where
  "translate [] = []"
| "translate (c # rest) =
     (if c = CHR ''*'' then Star # translate rest
      else if c = CHR ''?'' then AnyChar # translate rest
      else if c = CHR ''['' then
        (case bracket_split rest of
           None \<Rightarrow> Literal c # translate rest
         | Some (stuff, rest') \<Rightarrow>
             (if hd stuff = CHR ''!'' then CharClass True (class_ranges (tl stuff))
              else CharClass False (class_ranges stuff)) # translate rest')
      else Literal c # translate rest)"
  by pat_completeness auto
termination
  by (relation "measure length") (auto simp: bracket_split_def Let_def split: if_splits)

definition in_ranges :: "char \<Rightarrow> (char \<times> char) list \<Rightarrow> bool" where
  "in_ranges c rs =
     list_ex (\<lambda>(lo, hi). (of_char lo :: nat) \<le> of_char c \<and> (of_char c :: nat) \<le> of_char hi) rs"

fun item_accepts :: "pattern_item \<Rightarrow> char \<Rightarrow> bool" where
  "item_accepts Star c = True"
| "item_accepts AnyChar c = True"
| "item_accepts (CharClass negated rs) c = (if negated then \<not> in_ranges c rs else in_ranges c rs)"
| "item_accepts (Literal l) c = (c = l)"

fun items_match :: "pattern_item list \<Rightarrow> string \<Rightarrow> bool" where
  "items_match [] s = (s = [])"
| "items_match (Star # items) [] = items_match items []"
| "items_match (Star # items) (c # s) = (items_match items (c # s) \<or> items_match (Star # items) s)"
| "items_match (item # items) [] = False"
| "items_match (item # items) (c # s) = (item_accepts item c \<and> items_match items s)"

definition fnmatchcase :: "string \<Rightarrow> string \<Rightarrow> bool" where
  "fnmatchcase name pat = items_match (translate pat) name"

text \<open>A pattern in which \<^verbatim>\<open>fnmatchcase\<close> reads no character specially.\<close>

definition plain :: "string \<Rightarrow> bool" where
  "plain p = list_all (\<lambda>c. c \<noteq> CHR ''*'' \<and> c \<noteq> CHR ''?'' \<and> c \<noteq> CHR ''['') p"

section \<open>The filesystem operations\<close>

definition dir_glob_of :: "string \<Rightarrow> string" where
  "dir_glob_of path_glob =
     (if path_glob \<noteq> [] \<and> \<not> endswith path_glob ''/'' then path_glob @ ''/*''
      else path_glob @ ''*'')"

text \<open>\<^verbatim>\<open>"%s://%s/%s" % (scheme, bucket_name, key.key)\<close>\<close>

definition key_uri :: "string \<Rightarrow> string \<Rightarrow> string \<Rightarrow> string" where
  "key_uri scheme name key = scheme @ ''://'' @ name @ ''/'' @ key"

text \<open>
  \<^verbatim>\<open>ls\<close> is a generator: nothing of its body runs when it is called, and all of it up
  to the first key runs when the first item is asked for. The model returns the whole
  list of yielded URIs, or the exception that the body raises before its loop.
\<close>

definition ls :: "s3_filesystem \<Rightarrow> string \<Rightarrow> string list action" where
  "ls self path_glob w =
     (let scheme = urlparse_scheme path_glob;
          base_uri = (case GLOB_RE_match path_glob of Some g \<Rightarrow> g | None \<Rightarrow> path_glob)
      in case parse_s3_uri base_uri of
           Inl e \<Rightarrow> (Inl e, w)
         | Inr (name, base_name) \<Rightarrow>
             let dir_glob = dir_glob_of path_glob in
             and_then (get_bucket self name) (\<lambda>bucket w'.
               (Inr (filter (\<lambda>uri. fnmatchcase uri path_glob \<or> fnmatchcase uri dir_glob)
                       (map (key_uri scheme name) (objects_filter w' bucket base_name))),
                w')) w)"

text \<open>
  \<^verbatim>\<open>exists\<close>. The \<^verbatim>\<open>try\<close> block holds only \<^verbatim>\<open>paths = self.ls(path_glob)\<close>, which
  creates the generator and cannot raise, so the \<^verbatim>\<open>except\<close> clause is never entered;
  the body of \<^verbatim>\<open>ls\<close> runs inside \<^verbatim>\<open>any(paths)\<close>, after the \<^verbatim>\<open>try\<close>. \<^verbatim>\<open>any\<close>
  asks for the truth value of each URI, a string.
\<close>

definition exists :: "s3_filesystem \<Rightarrow> string \<Rightarrow> bool action" where
  "exists self path_glob w =
     (let paths = ls self path_glob in
      case paths w of
        (Inl e, w') \<Rightarrow> (Inl e, w')
      | (Inr uris, w') \<Rightarrow> (Inr (list_ex (\<lambda>uri. uri \<noteq> []) uris), w'))"

text \<open>
  The handle that \<^verbatim>\<open>get_bucket\<close> returns is \<^verbatim>\<open>resource.Bucket(bucket_name)\<close> of a
  boto3 resource, the object whose \<^verbatim>\<open>objects.filter\<close> the listing uses. A boto3 bucket
  has neither \<^verbatim>\<open>get_key\<close> nor \<^verbatim>\<open>new_key\<close> (they are methods of the bucket of the older
  boto library), so reading either attribute raises \<^verbatim>\<open>AttributeError\<close> and no key object
  comes back.
\<close>

definition get_key :: "s3_bucket \<Rightarrow> string \<Rightarrow> s3_key option action" where
  "get_key bucket name w = (Inl AttributeError, w)"

definition new_key :: "s3_bucket \<Rightarrow> string \<Rightarrow> s3_key action" where
  "new_key bucket name w = (Inl AttributeError, w)"

text \<open>
  \<^verbatim>\<open>get_s3_key\<close>. When \<^verbatim>\<open>get_bucket\<close> raises, the clause
  \<^verbatim>\<open>except boto.exception.S3ResponseError as e\<close> is evaluated: without boto the
  attribute access on \<^verbatim>\<open>None\<close> raises \<^verbatim>\<open>AttributeError\<close>; with it, only an exception
  of that class enters the handler. \<^verbatim>\<open>bucket.get_key(key_name)\<close> stands in the
  \<^verbatim>\<open>else\<close> branch, which no handler covers.
\<close>

definition get_s3_key :: "s3_filesystem \<Rightarrow> string \<Rightarrow> s3_key option action" where
  "get_s3_key self uri w =
     (case parse_s3_uri uri of
        Inl e \<Rightarrow> (Inl e, w)
      | Inr (name, kname) \<Rightarrow>
          (case get_bucket self name w of
             (Inl e, w') \<Rightarrow>
               if \<not> boto_installed w' then (Inl AttributeError, w')
               else (case e of
                       S3ResponseError status \<Rightarrow>
                         if status \<noteq> 404 then (Inl e, w') else (Inr None, w')
                     | _ \<Rightarrow> (Inl e, w'))
           | (Inr bucket, w') \<Rightarrow> get_key bucket kname w'))"

definition make_s3_key :: "s3_filesystem \<Rightarrow> string \<Rightarrow> s3_key action" where
  "make_s3_key self uri w =
     (case parse_s3_uri uri of
        Inl e \<Rightarrow> (Inl e, w)
      | Inr (name, kname) \<Rightarrow>
          and_then (get_bucket self name) (\<lambda>bucket. new_key bucket kname) w)"

definition touchz :: "s3_filesystem \<Rightarrow> string \<Rightarrow> unit action" where
  "touchz self dest =
     and_then (get_s3_key self dest) (\<lambda>key.
       if key \<noteq> None \<and> key_size (the key) \<noteq> Some 0 then (\<lambda>w. (Inl OSError, w))
       else and_then (make_s3_key self dest) (\<lambda>k. set_contents_from_string k []))"

text \<open>
  \<^verbatim>\<open>du\<close>: \<^verbatim>\<open>sum\<close> starts from 0 and adds \<^verbatim>\<open>get_s3_key(uri).size\<close> for each URI that
  \<^verbatim>\<open>ls\<close> yields; reading \<^verbatim>\<open>.size\<close> of \<^verbatim>\<open>None\<close> raises \<^verbatim>\<open>AttributeError\<close>, adding a
  size of \<^verbatim>\<open>None\<close> raises \<^verbatim>\<open>TypeError\<close>.
\<close>

fun sum_sizes :: "s3_filesystem \<Rightarrow> string list \<Rightarrow> int \<Rightarrow> int action" where
  "sum_sizes self [] acc w = (Inr acc, w)"
| "sum_sizes self (uri # uris) acc w =
     (case get_s3_key self uri w of
        (Inl e, w') \<Rightarrow> (Inl e, w')
      | (Inr None, w') \<Rightarrow> (Inl AttributeError, w')
      | (Inr (Some key), w') \<Rightarrow>
          (case key_size key of
             None \<Rightarrow> (Inl TypeError, w')
           | Some n \<Rightarrow> sum_sizes self uris (acc + n) w'))"

definition du :: "s3_filesystem \<Rightarrow> string \<Rightarrow> int action" where
  "du self path_glob = and_then (ls self path_glob) (\<lambda>uris. sum_sizes self uris 0)"

section \<open>A filesystem and a service to run the operations on\<close>

definition fs_default :: s3_filesystem where
  "fs_default = S3Filesystem_init None None None None None"

definition fs_static :: s3_filesystem where
  "fs_static = S3Filesystem_init None None None (Some ''s3.example.com'') (Some ''eu-west-1'')"

text \<open>The objects stored in the bucket \<^verbatim>\<open>walrus\<close>: their keys and their sizes.\<close>

definition walrus_objects :: "(string \<times> nat) list" where
  "walrus_objects = [(''data/a'', 10), (''data/b'', 20), (''data/c'', 30), (''empty'', 0)]"

text \<open>
  One bucket, \<^verbatim>\<open>walrus\<close>, whose location can be read and whose scan returns the keys of
  its objects under the prefix. The location of \<^verbatim>\<open>elasticmapreduce\<close> may not be read
  (403), and no other bucket exists (404); the errors are as botocore raises them.
\<close>

definition walrus_world :: world where
  "walrus_world =
     \<lparr> boto_installed = True,
       boto3_installed = True,
       bucket_location = (\<lambda>kw name.
         if name = ''walrus'' then Inr (Some ''us-west-2'')
         else if name = ''elasticmapreduce''
           then Inl (ClientError \<lparr> err_code = Some ''AccessDenied'', err_status = None,
                                   http_status = Some 403 \<rparr>)
         else Inl (ClientError \<lparr> err_code = Some ''NoSuchBucket'', err_status = None,
                                 http_status = Some 404 \<rparr>)),
       objects_filter = (\<lambda>bucket prefix.
         if bucket_name bucket = ''walrus''
         then filter (\<lambda>key. startswith key prefix) (map fst walrus_objects)
         else []),
       trace = [] \<rparr>"

section \<open>Evaluating the operations on a concrete service\<close>

lemmas run_defs = fs_default_def fs_static_def walrus_world_def walrus_objects_def
  S3Filesystem_init_def endpoint_url_def truthy_def client_kwargs_def is_uri_def
  urlparse_scheme_def startswith_def endswith_def
  get_bucket_def and_then_def make_s3_client_def make_s3_resource_def get_bucket_region_def
  emit_def endpoint_or_region_def S3_REGION_WITH_NO_LOCATION_CONSTRAINT_def
  parse_s3_uri_def GLOB_RE_match_def wildcard_def fnmatchcase_def dir_glob_of_def key_uri_def
  ls_def exists_def get_key_def new_key_def get_s3_key_def
  make_s3_key_def touchz_def du_def Let_def

section \<open>Resolving a bucket changes nothing but the trace\<close>

lemma get_bucket_unfold:
  "get_bucket self name w =
     (if \<not> boto3_installed w then (Inl ImportError, w)
      else
        let kw = client_kwargs self None;
            w2 = w\<lparr>trace := trace w @ [LogDebug (''creating S3 client ('' @ endpoint_or_region kw @ '')''),
                                       GetBucketLocation kw name]\<rparr>
        in case bucket_location w kw name of
             Inl e \<Rightarrow> (Inl (case e of ClientError r \<Rightarrow> NameError | _ \<Rightarrow> e), w2)
           | Inr location \<Rightarrow>
               let kw' = client_kwargs self
                     (Some (if truthy location then the location
                            else S3_REGION_WITH_NO_LOCATION_CONSTRAINT))
               in (Inr (Bucket kw' name),
                   w2\<lparr>trace := trace w2 @ [LogDebug (''creating S3 resource ('' @ endpoint_or_region kw' @ '')'')]\<rparr>))"
  by (simp add: get_bucket_def and_then_def make_s3_client_def make_s3_resource_def
      get_bucket_region_def emit_def Let_def split: sum.splits exn.splits)

lemma get_bucket_frame:
  "snd (get_bucket self name w) = w\<lparr>trace := trace (snd (get_bucket self name w))\<rparr>"
  by (simp add: get_bucket_unfold Let_def split: sum.splits exn.splits)

lemma get_bucket_trace_irrelevant:
  "fst (get_bucket self name (w\<lparr>trace := t\<rparr>)) = fst (get_bucket self name w)"
  by (simp add: get_bucket_unfold Let_def split: sum.splits exn.splits)

lemma get_bucket_objects_filter: "objects_filter (snd (get_bucket self name w)) = objects_filter w"
  by (subst get_bucket_frame) simp

lemma get_bucket_boto: "boto_installed (snd (get_bucket self name w)) = boto_installed w"
  by (subst get_bucket_frame) simp

section \<open>Patterns without special characters\<close>

lemma translate_plain: "plain p \<Longrightarrow> translate (p @ q) = map Literal p @ translate q"
  by (induction p) (auto simp: plain_def)

lemma items_match_literals:
  "items_match (map Literal p @ items) s = (startswith s p \<and> items_match items (drop (length p) s))"
proof (induction p arbitrary: s)
  case Nil
  then show ?case by (simp add: startswith_def)
next
  case (Cons a p)
  then show ?case by (cases s) (auto simp: startswith_def)
qed

lemma items_match_star: "items_match [Star] s"
  by (induction s) auto

lemma fnmatchcase_plain: "plain p \<Longrightarrow> fnmatchcase u p = (u = p)"
  using translate_plain[of p "[]"] items_match_literals[of p "[]" u]
  by (auto simp: fnmatchcase_def startswith_def)

lemma fnmatchcase_plain_star: "plain p \<Longrightarrow> fnmatchcase u (p @ ''*'') = startswith u p"
  using translate_plain[of p "''*''"] items_match_literals[of p "[Star]" u]
  by (simp add: fnmatchcase_def items_match_star)

lemma plain_slash: "plain p \<Longrightarrow> plain (p @ ''/'')"
  by (simp add: plain_def)

lemma fnmatchcase_plain_dir: "plain p \<Longrightarrow> fnmatchcase u (p @ ''/*'') = startswith u (p @ ''/'')"
  using fnmatchcase_plain_star[OF plain_slash, of p u] by simp

section \<open>Parsing the URIs that a listing rebuilds\<close>

lemma startswith_iff: "startswith s p = (\<exists>r. s = p @ r)"
proof
  assume "startswith s p"
  then have "s = p @ drop (length p) s"
    using append_take_drop_id[of "length p" s] by (simp add: startswith_def)
  then show "\<exists>r. s = p @ r" ..
next
  assume "\<exists>r. s = p @ r"
  then show "startswith s p" by (auto simp: startswith_def)
qed

lemma startswith_sep_stable:
  "startswith (c # s @ ''://'' @ r) ''://'' = startswith (c # s @ ''://'' @ r') ''://''"
proof (cases s)
  case Nil
  then show ?thesis by (simp add: startswith_def)
next
  case (Cons a s2)
  then show ?thesis by (cases s2) (simp_all add: startswith_def)
qed

lemma split_scheme_shape: "split_scheme a = Some (s, r) \<Longrightarrow> a = s @ ''://'' @ r"
proof (induction a arbitrary: s)
  case Nil
  then show ?case by simp
next
  case (Cons c cs)
  show ?case
  proof (cases "startswith (c # cs) ''://''")
    case True
    then obtain r0 where r0: "c # cs = ''://'' @ r0" unfolding startswith_iff ..
    from True Cons.prems have "s = []" "r = drop 3 (c # cs)" by auto
    then show ?thesis by (simp add: r0)
  next
    case False
    with Cons.prems obtain s' where "split_scheme cs = Some (s', r)" "s = c # s'"
      by (auto split: option.splits)
    with Cons.IH show ?thesis by simp
  qed
qed

lemma split_scheme_rebuild:
  "split_scheme a = Some (s, r) \<Longrightarrow> split_scheme (s @ ''://'' @ r') = Some (s, r')"
proof (induction a arbitrary: s)
  case Nil
  then show ?case by simp
next
  case (Cons c cs)
  show ?case
  proof (cases "startswith (c # cs) ''://''")
    case True
    with Cons.prems have "s = []" by auto
    then show ?thesis by (simp add: startswith_def)
  next
    case False
    with Cons.prems obtain s' where s': "split_scheme cs = Some (s', r)" "s = c # s'"
      by (auto split: option.splits)
    from split_scheme_shape[OF s'(1)] have cs: "cs = s' @ ''://'' @ r" .
    from False have "\<not> startswith (c # s' @ ''://'' @ r') ''://''"
      unfolding cs using startswith_sep_stable[of c s' r r'] by simp
    with Cons.IH[OF s'(1)] s'(2) show ?thesis by simp
  qed
qed

lemma split_scheme_append: "split_scheme a = Some (s, r) \<Longrightarrow> split_scheme (a @ x) = Some (s, r @ x)"
  using split_scheme_shape[of a s r] split_scheme_rebuild[of a s r "r @ x"] by simp

lemma parse_key_uri:
  assumes "parse_s3_uri base = Inr (name, base_name)"
  shows "parse_s3_uri (key_uri (urlparse_scheme (base @ rest)) name key) = Inr (name, key)"
proof -
  from assms obtain sch r where sp: "split_scheme base = Some (sch, r)"
    by (auto simp: parse_s3_uri_def split: option.splits)
  with assms have sch: "sch \<in> set [''s3'', ''s3n'']" and name: "name = takeWhile (\<lambda>c. c \<noteq> CHR ''/'') r" "name \<noteq> []"
    by (auto simp: parse_s3_uri_def Let_def split: if_splits)
  have us: "urlparse_scheme (base @ rest) = sch"
    using split_scheme_append[OF sp] by (simp add: urlparse_scheme_def)
  have noslash: "\<And>x. x \<in> set name \<Longrightarrow> x \<noteq> CHR ''/''"
    unfolding name(1) by (auto dest: set_takeWhileD)
  have tw: "takeWhile (\<lambda>c. c \<noteq> CHR ''/'') (name @ ''/'' @ key) = name"
    using noslash by simp
  have dw: "dropWhile (\<lambda>c. c \<noteq> CHR ''/'') (name @ ''/'' @ key) = ''/'' @ key"
    using noslash by simp
  show ?thesis
    unfolding key_uri_def us parse_s3_uri_def
    using split_scheme_rebuild[OF sp, of "name @ ''/'' @ key"] sch name(2) tw dw
    by (simp add: Let_def)
qed

section \<open>Listing\<close>

lemma base_uri_eq:
  "(case GLOB_RE_match P of Some g \<Rightarrow> g | None \<Rightarrow> P) = takeWhile (\<lambda>c. \<not> wildcard c) P"
proof (cases "list_ex wildcard P")
  case True
  then show ?thesis by (simp add: GLOB_RE_match_def)
next
  case False
  then have tw: "takeWhile (\<lambda>c. \<not> wildcard c) P = P"
    by (simp add: list_ex_iff takeWhile_eq_all_conv)
  show ?thesis using False by (simp add: GLOB_RE_match_def tw)
qed

lemma parse_s3_uri_nonempty: "parse_s3_uri u = Inr x \<Longrightarrow> u \<noteq> []"
  by (auto simp: parse_s3_uri_def)

lemma ls_unfold:
  "ls self P w =
     (case parse_s3_uri (takeWhile (\<lambda>c. \<not> wildcard c) P) of
        Inl e \<Rightarrow> (Inl e, w)
      | Inr (name, base_name) \<Rightarrow>
          (case fst (get_bucket self name w) of
             Inl e \<Rightarrow> (Inl e, snd (get_bucket self name w))
           | Inr bucket \<Rightarrow>
               (Inr (filter (\<lambda>uri. fnmatchcase uri P \<or> fnmatchcase uri (dir_glob_of P))
                       (map (key_uri (urlparse_scheme P) name) (objects_filter w bucket base_name))),
                snd (get_bucket self name w))))"
proof (cases "parse_s3_uri (takeWhile (\<lambda>c. \<not> wildcard c) P)")
  case (Inl e)
  then show ?thesis by (simp add: ls_def base_uri_eq)
next
  case (Inr nb)
  obtain name base_name where nb: "nb = (name, base_name)" by (cases nb)
  obtain r w' where g: "get_bucket self name w = (r, w')" by (cases "get_bucket self name w")
  have "objects_filter w' = objects_filter w"
    using get_bucket_objects_filter[of self name w] by (simp add: g)
  with Inr nb g show ?thesis
    by (cases r) (simp_all add: ls_def base_uri_eq and_then_def)
qed

text \<open>
  The empty pattern is the one input on which \<^verbatim>\<open>ls\<close> would append \<^verbatim>\<open>*\<close> to a pattern
  that does not end in \<^verbatim>\<open>/\<close>; it is not an S3 URI, and \<^verbatim>\<open>ls\<close> raises before any scan.
\<close>

lemma ls_empty_pattern_raises: "ls self [] w = (Inl ValueError, w)"
  by (simp add: ls_unfold parse_s3_uri_def)

lemma ls_frame: "snd (ls self P w) = w\<lparr>trace := trace (snd (ls self P w))\<rparr>"
  unfolding ls_unfold
  by (auto split: sum.splits intro: get_bucket_frame)

lemma ls_result:
  assumes "fst (ls self P w) = Inr uris"
  shows "\<exists>name base_name bucket.
           parse_s3_uri (takeWhile (\<lambda>c. \<not> wildcard c) P) = Inr (name, base_name)
         \<and> fst (get_bucket self name w) = Inr bucket
         \<and> uris = filter (\<lambda>uri. fnmatchcase uri P
                              \<or> fnmatchcase uri (P @ (if endswith P ''/'' then ''*'' else ''/*'')))
                     (map (key_uri (urlparse_scheme P) name) (objects_filter w bucket base_name))"
proof -
  from assms obtain name base_name where
    p: "parse_s3_uri (takeWhile (\<lambda>c. \<not> wildcard c) P) = Inr (name, base_name)"
    unfolding ls_unfold by (auto split: sum.splits)
  with assms obtain bucket where b: "fst (get_bucket self name w) = Inr bucket"
    unfolding ls_unfold by (auto split: sum.splits)
  from p have "takeWhile (\<lambda>c. \<not> wildcard c) P \<noteq> []" by (rule parse_s3_uri_nonempty)
  then have "P \<noteq> []" by auto
  then have d: "dir_glob_of P = P @ (if endswith P ''/'' then ''*'' else ''/*'')"
    by (simp add: dir_glob_of_def)
  from assms p b show ?thesis unfolding ls_unfold d by auto
qed

text \<open>
  C2: when \<^verbatim>\<open>ls(P)\<close> yields, the scan is made in the bucket and with the key prefix
  parsed from the part of \<open>P\<close> before its first wildcard (all of \<open>P\<close> when it has none),
  and the URIs yielded are exactly the URIs rebuilt from the scanned keys, in scan order,
  that match \<open>P\<close> or the directory pattern (\<open>P\<close> followed by \<^verbatim>\<open>*\<close> when \<open>P\<close> ends in
  \<^verbatim>\<open>/\<close>, by \<^verbatim>\<open>/*\<close> otherwise) under the case-sensitive matcher.
\<close>

theorem ls_yields_matching:
  assumes "fst (ls self P w) = Inr uris"
  shows "\<exists>name base_name bucket.
           parse_s3_uri (takeWhile (\<lambda>c. \<not> wildcard c) P) = Inr (name, base_name)
         \<and> fst (get_bucket self name w) = Inr bucket
         \<and> uris = filter (\<lambda>uri. fnmatchcase uri P
                              \<or> fnmatchcase uri (P @ (if endswith P ''/'' then ''*'' else ''/*'')))
                     (map (key_uri (urlparse_scheme P) name) (objects_filter w bucket base_name))"
  using assms by (rule ls_result)

theorem ls_yields_matching_witness:
  "fst (ls fs_default ''s3://walrus/data/*'' walrus_world)
     = Inr [''s3://walrus/data/a'', ''s3://walrus/data/b'', ''s3://walrus/data/c'']
   \<and> (\<exists>name base_name bucket.
         parse_s3_uri (takeWhile (\<lambda>c. \<not> wildcard c) ''s3://walrus/data/*'') = Inr (name, base_name)
       \<and> fst (get_bucket fs_default name walrus_world) = Inr bucket
       \<and> [''s3://walrus/data/a'', ''s3://walrus/data/b'', ''s3://walrus/data/c'']
           = filter (\<lambda>uri. fnmatchcase uri ''s3://walrus/data/*''
                        \<or> fnmatchcase uri (''s3://walrus/data/*''
                             @ (if endswith ''s3://walrus/data/*'' ''/'' then ''*'' else ''/*'')))
               (map (key_uri (urlparse_scheme ''s3://walrus/data/*'') name)
                 (objects_filter walrus_world bucket base_name)))"
proof -
  have h: "fst (ls fs_default ''s3://walrus/data/*'' walrus_world)
     = Inr [''s3://walrus/data/a'', ''s3://walrus/data/b'', ''s3://walrus/data/c'']"
    by (simp add: run_defs)
  from h ls_yields_matching[OF h] show ?thesis by (rule conjI)
qed

lemma key_uri_inj: "key_uri sch name k = key_uri sch name k' \<Longrightarrow> k = k'"
  by (simp add: key_uri_def)

text \<open>
  C7, as stated, fails: \<^verbatim>\<open>s3://walrus/data\<close> has no wildcard, and listing it yields the
  three objects under \<^verbatim>\<open>data/\<close>, none of them equal to the path.
\<close>

theorem ls_plain_directory_counterexample:
  "fst (ls fs_default ''s3://walrus/data'' walrus_world)
     = Inr [''s3://walrus/data/a'', ''s3://walrus/data/b'', ''s3://walrus/data/c'']"
  by (simp add: run_defs)

text \<open>
  C7, amended: for a path \<open>P\<close> without \<^verbatim>\<open>*\<close>, \<^verbatim>\<open>?\<close> or \<^verbatim>\<open>[\<close>, every URI that
  \<^verbatim>\<open>ls(P)\<close> yields is \<open>P\<close> itself or lies under the directory \<open>P\<close> (it begins with
  \<open>P\<close> and \<^verbatim>\<open>/\<close>, or with \<open>P\<close> when \<open>P\<close> ends in \<^verbatim>\<open>/\<close>); and when no scan returns a
  key twice, no URI is yielded twice, so \<open>P\<close> is yielded at most once.
\<close>

theorem ls_plain_path:
  assumes "fst (ls self P w) = Inr uris" and "plain P"
  shows "(\<forall>u \<in> set uris. u = P \<or> startswith u (if endswith P ''/'' then P else P @ ''/''))
       \<and> ((\<forall>bucket prefix. distinct (objects_filter w bucket prefix)) \<longrightarrow> distinct uris)"
proof -
  from ls_result[OF assms(1)] obtain name base_name bucket where
    u: "uris = filter (\<lambda>uri. fnmatchcase uri P
                              \<or> fnmatchcase uri (P @ (if endswith P ''/'' then ''*'' else ''/*'')))
                     (map (key_uri (urlparse_scheme P) name) (objects_filter w bucket base_name))"
    by blast
  have 1: "\<forall>u \<in> set uris. u = P \<or> startswith u (if endswith P ''/'' then P else P @ ''/'')"
    unfolding u using assms(2)
    by (auto simp: fnmatchcase_plain fnmatchcase_plain_star fnmatchcase_plain_dir)
  have 2: "(\<forall>bucket prefix. distinct (objects_filter w bucket prefix)) \<longrightarrow> distinct uris"
  proof
    assume "\<forall>bucket prefix. distinct (objects_filter w bucket prefix)"
    then have "distinct (objects_filter w bucket base_name)" by blast
    then have "distinct (map (key_uri (urlparse_scheme P) name) (objects_filter w bucket base_name))"
      by (simp add: distinct_map inj_on_def key_uri_def)
    then show "distinct uris" unfolding u by (rule distinct_filter)
  qed
  from 1 2 show ?thesis ..
qed

theorem ls_plain_path_witness:
  "fst (ls fs_default ''s3://walrus/data'' walrus_world)
     = Inr [''s3://walrus/data/a'', ''s3://walrus/data/b'', ''s3://walrus/data/c'']
   \<and> plain ''s3://walrus/data''
   \<and> list_all (\<lambda>u. u = ''s3://walrus/data'' \<or> startswith u ''s3://walrus/data/'')
        [''s3://walrus/data/a'', ''s3://walrus/data/b'', ''s3://walrus/data/c'']"
proof -
  have h: "fst (ls fs_default ''s3://walrus/data'' walrus_world)
     = Inr [''s3://walrus/data/a'', ''s3://walrus/data/b'', ''s3://walrus/data/c'']"
    by (simp add: run_defs)
  have p: "plain ''s3://walrus/data''" by (simp add: plain_def)
  from ls_plain_path[OF h p] h p show ?thesis by (simp add: endswith_def)
qed

section \<open>Resolving a bucket\<close>

lemma get_bucket_client_error:
  "boto3_installed w \<Longrightarrow> bucket_location w (client_kwargs self None) name = Inl (ClientError r)
   \<Longrightarrow> fst (get_bucket self name w) = Inl NameError"
  by (simp add: get_bucket_unfold Let_def)

text \<open>
  C1, on the code: for the bucket \<^verbatim>\<open>elasticmapreduce\<close>, whose location lookup is denied
  with status 403, \<^verbatim>\<open>get_bucket\<close> raises \<^verbatim>\<open>NameError\<close>; the trace holds the client's
  debug line and the lookup, and no warning.
\<close>

theorem get_bucket_access_denied_raises:
  "fst (get_bucket fs_default ''elasticmapreduce'' walrus_world) = Inl NameError
   \<and> trace (snd (get_bucket fs_default ''elasticmapreduce'' walrus_world))
       = [LogDebug ''creating S3 client (default)'',
          GetBucketLocation (client_kwargs fs_default None) ''elasticmapreduce'']"
  by (simp add: run_defs)

text \<open>
  C6, as stated, fails: with a static endpoint configured, \<^verbatim>\<open>get_bucket\<close> still makes
  the location-metadata call, and a failing lookup still fails it.
\<close>

theorem static_endpoint_still_discovers_counterexample:
  "s3_endpoint_url fs_static = Some ''https://s3.example.com''
   \<and> GetBucketLocation (client_kwargs fs_static None) ''walrus''
       \<in> set (trace (snd (get_bucket fs_static ''walrus'' walrus_world)))
   \<and> fst (get_bucket fs_static ''nosuchbucket'' walrus_world) = Inl NameError"
  by (simp add: run_defs)

lemma endpoint_url_truthy: "ep \<noteq> [] \<Longrightarrow> truthy (endpoint_url (Some ep))"
  by (simp add: endpoint_url_def truthy_def)

text \<open>
  C6, amended: with a non-empty static endpoint configured at construction, the client
  that looks the location up and the resource of the returned bucket are both created
  with that endpoint (prefixed by \<^verbatim>\<open>https://\<close> unless it is a URI already) and the
  configured region, whatever location the lookup reports; the lookup is still made,
  once, through that client.
\<close>

theorem get_bucket_static_endpoint:
  fixes a s t rg :: "string option" and ep :: string and self kw
  defines "self \<equiv> S3Filesystem_init a s t (Some ep) rg"
  defines "kw \<equiv> client_kwargs self None"
  assumes "ep \<noteq> []" and "boto3_installed w" and "bucket_location w kw name = Inr location"
  shows "kw_endpoint_url kw = Some (if is_uri ep then ep else ''https://'' @ ep)
       \<and> kw_region_name kw = rg
       \<and> fst (get_bucket self name w) = Inr (Bucket kw name)
       \<and> trace (snd (get_bucket self name w))
           = trace w @ [LogDebug (''creating S3 client ('' @ endpoint_or_region kw @ '')''),
                        GetBucketLocation kw name,
                        LogDebug (''creating S3 resource ('' @ endpoint_or_region kw @ '')'')]"
proof -
  have t: "truthy (s3_endpoint_url self)"
    unfolding self_def using assms(3) by (simp add: S3Filesystem_init_def endpoint_url_truthy)
  then have k: "\<And>r. client_kwargs self r = kw"
    unfolding kw_def by (simp add: client_kwargs_def)
  have e: "kw_endpoint_url kw = Some (if is_uri ep then ep else ''https://'' @ ep)"
    unfolding kw_def using t assms(3)
    by (simp add: client_kwargs_def self_def S3Filesystem_init_def endpoint_url_def truthy_def)
  have r: "kw_region_name kw = rg"
    unfolding kw_def using t by (simp add: client_kwargs_def self_def S3Filesystem_init_def)
  from assms(4,5) have g: "get_bucket self name w =
     (Inr (Bucket kw name),
      w\<lparr>trace := trace w @ [LogDebug (''creating S3 client ('' @ endpoint_or_region kw @ '')''),
                        GetBucketLocation kw name,
                        LogDebug (''creating S3 resource ('' @ endpoint_or_region kw @ '')'')]\<rparr>)"
    by (simp add: get_bucket_unfold k Let_def)
  from e r g show ?thesis by simp
qed

theorem get_bucket_static_endpoint_witness:
  "''s3.example.com'' \<noteq> [] \<and> boto3_installed walrus_world
   \<and> fst (get_bucket fs_static ''walrus'' walrus_world)
       = Inr (Bucket \<lparr> kw_aws_access_key_id = None, kw_aws_secret_access_key = None,
                       kw_aws_session_token = None,
                       kw_endpoint_url = Some ''https://s3.example.com'',
                       kw_region_name = Some ''eu-west-1'' \<rparr> ''walrus'')"
proof -
  have 1: "''s3.example.com'' \<noteq> []" by simp
  have 2: "boto3_installed walrus_world" by (simp add: walrus_world_def)
  have 3: "bucket_location walrus_world
             (client_kwargs (S3Filesystem_init None None None (Some ''s3.example.com'')
                (Some ''eu-west-1'')) None) ''walrus'' = Inr (Some ''us-west-2'')"
    by (simp add: walrus_world_def)
  from get_bucket_static_endpoint[OF 1 2 3] 2 show ?thesis
    by (simp add: fs_static_def S3Filesystem_init_def endpoint_url_def truthy_def
        client_kwargs_def is_uri_def urlparse_scheme_def startswith_def)
qed

section \<open>Existence and key lookup\<close>

lemma exists_iff_ls_yields:
  assumes "fst (ls self P w) = Inr uris"
  shows "fst (exists self P w) = Inr (uris \<noteq> [])"
proof -
  from ls_result[OF assms] have "\<forall>u \<in> set uris. u \<noteq> []"
    by (auto simp: key_uri_def)
  then have "list_ex (\<lambda>uri. uri \<noteq> []) uris = (uris \<noteq> [])"
    by (cases uris) (auto simp: list_ex_iff)
  with assms show ?thesis
    by (cases "ls self P w") (simp add: exists_def)
qed

text \<open>
  C3, on the code: for a key in a bucket that does not exist (the location lookup
  answers 404), \<^verbatim>\<open>exists\<close> raises instead of returning false.
\<close>

theorem exists_missing_bucket_raises:
  "fst (exists fs_default ''s3://nosuchbucket/key'' walrus_world) = Inl NameError"
  by (simp add: run_defs)

text \<open>
  C10, on the code: for a key in a bucket that does not exist (the location lookup
  answers 404), \<^verbatim>\<open>get_s3_key\<close> raises instead of returning \<^verbatim>\<open>None\<close>.
\<close>

theorem get_s3_key_missing_bucket_raises:
  "fst (get_s3_key fs_default ''s3://nosuchbucket/key'' walrus_world) = Inl NameError"
  by (simp add: run_defs)

section \<open>An empty endpoint override\<close>

lemma same_kwargs_make_s3_client:
  "client_kwargs f1 = client_kwargs f2 \<Longrightarrow> make_s3_client f1 = make_s3_client f2"
  by (intro ext) (simp add: make_s3_client_def)

lemma same_kwargs_make_s3_resource:
  "client_kwargs f1 = client_kwargs f2 \<Longrightarrow> make_s3_resource f1 = make_s3_resource f2"
  by (intro ext) (simp add: make_s3_resource_def)

lemma same_kwargs_get_bucket:
  assumes "client_kwargs f1 = client_kwargs f2"
  shows "get_bucket f1 = get_bucket f2"
  unfolding get_bucket_def same_kwargs_make_s3_client[OF assms]
    same_kwargs_make_s3_resource[OF assms] by (rule refl)

lemma same_kwargs_ls:
  assumes "client_kwargs f1 = client_kwargs f2"
  shows "ls f1 = ls f2"
  unfolding ls_def same_kwargs_get_bucket[OF assms] by (rule refl)

lemma same_kwargs_get_s3_key:
  assumes "client_kwargs f1 = client_kwargs f2"
  shows "get_s3_key f1 = get_s3_key f2"
  unfolding get_s3_key_def same_kwargs_get_bucket[OF assms] by (rule refl)

lemma same_kwargs_make_s3_key:
  assumes "client_kwargs f1 = client_kwargs f2"
  shows "make_s3_key f1 = make_s3_key f2"
  unfolding make_s3_key_def same_kwargs_get_bucket[OF assms] by (rule refl)

lemma same_kwargs_sum_sizes:
  assumes "client_kwargs f1 = client_kwargs f2"
  shows "sum_sizes f1 uris acc w = sum_sizes f2 uris acc w"
proof (induction uris arbitrary: acc w)
  case Nil
  show ?case by simp
next
  case (Cons u uris)
  show ?case
    unfolding sum_sizes.simps same_kwargs_get_s3_key[OF assms] Cons.IH by (rule refl)
qed

lemma empty_endpoint_kwargs:
  "client_kwargs (S3Filesystem_init a s t (Some []) r) = client_kwargs (S3Filesystem_init a s t None r)"
  by (intro ext) (simp add: endpoint_url_def truthy_def client_kwargs_def S3Filesystem_init_def)

text \<open>
  C9: \<^verbatim>\<open>_endpoint_url\<close> maps the empty string to itself; a filesystem constructed with
  the empty string as endpoint then gets the same keyword arguments as one constructed
  with no endpoint (no endpoint URL, the caller's region name), and every operation on
  the one is the operation on the other.
\<close>

theorem empty_endpoint_is_no_endpoint:
  fixes a s t r :: "string option" and f1 f2
  defines "f1 \<equiv> S3Filesystem_init a s t (Some []) r"
  defines "f2 \<equiv> S3Filesystem_init a s t None r"
  shows "endpoint_url (Some []) = Some []
       \<and> kw_endpoint_url (client_kwargs f1 region) = None
       \<and> kw_region_name (client_kwargs f1 region) = region
       \<and> client_kwargs f1 = client_kwargs f2
       \<and> make_s3_client f1 = make_s3_client f2
       \<and> make_s3_resource f1 = make_s3_resource f2
       \<and> get_bucket f1 = get_bucket f2
       \<and> ls f1 = ls f2
       \<and> exists f1 = exists f2
       \<and> get_s3_key f1 = get_s3_key f2
       \<and> touchz f1 = touchz f2
       \<and> du f1 = du f2"
proof -
  have k: "client_kwargs f1 = client_kwargs f2"
    unfolding f1_def f2_def by (rule empty_endpoint_kwargs)
  have 1: "endpoint_url (Some []) = Some []" by (simp add: endpoint_url_def truthy_def)
  have 2: "kw_endpoint_url (client_kwargs f1 region) = None"
    by (simp add: f1_def endpoint_url_def truthy_def client_kwargs_def S3Filesystem_init_def)
  have 3: "kw_region_name (client_kwargs f1 region) = region"
    by (simp add: f1_def endpoint_url_def truthy_def client_kwargs_def S3Filesystem_init_def)
  have 6: "exists f1 = exists f2"
    unfolding exists_def same_kwargs_ls[OF k] by (rule refl)
  have 7: "touchz f1 = touchz f2"
    unfolding touchz_def same_kwargs_get_s3_key[OF k] same_kwargs_make_s3_key[OF k] by (rule refl)
  have 8: "du f1 = du f2"
  proof -
    have "sum_sizes f1 = sum_sizes f2" by (intro ext) (rule same_kwargs_sum_sizes[OF k])
    then show ?thesis unfolding du_def same_kwargs_ls[OF k] by simp
  qed
  show ?thesis
    by (intro conjI 1 2 3 k same_kwargs_make_s3_client[OF k] same_kwargs_make_s3_resource[OF k]
        same_kwargs_get_bucket[OF k] same_kwargs_ls[OF k] 6 same_kwargs_get_s3_key[OF k] 7 8)
qed

section \<open>Keys in a resolved bucket\<close>

lemma get_s3_key_resolved_bucket_raises:
  assumes "parse_s3_uri uri = Inr (name, key)" and "fst (get_bucket self name w) = Inr bucket"
  shows "get_s3_key self uri w = (Inl AttributeError, snd (get_bucket self name w))"
proof -
  obtain w' where "get_bucket self name w = (Inr bucket, w')"
    using assms(2) by (cases "get_bucket self name w") simp
  with assms(1) show ?thesis by (simp add: get_s3_key_def get_key_def)
qed

lemma touchz_resolved_bucket_raises:
  assumes "parse_s3_uri dest = Inr (name, key)" and "fst (get_bucket self name w) = Inr bucket"
  shows "fst (touchz self dest w) = Inl AttributeError"
  by (simp add: touchz_def and_then_def get_s3_key_resolved_bucket_raises[OF assms])

text \<open>
  C5, on the code: in the bucket \<^verbatim>\<open>walrus\<close>, which resolves, \<^verbatim>\<open>touchz\<close> raises
  \<^verbatim>\<open>AttributeError\<close> for a path with no object, for the path of the empty object and
  for the path of a non-empty object alike: it neither creates the empty object nor
  reports the conflict.
\<close>

theorem touchz_raises_attribute_error:
  "fst (touchz fs_default ''s3://walrus/new'' walrus_world) = Inl AttributeError
   \<and> fst (touchz fs_default ''s3://walrus/empty'' walrus_world) = Inl AttributeError
   \<and> fst (touchz fs_default ''s3://walrus/data/a'' walrus_world) = Inl AttributeError"
  by (simp add: run_defs)

section \<open>Disk usage\<close>

lemma du_result:
  assumes "fst (ls self path_glob w) = Inr uris"
  shows "fst (du self path_glob w) = (if uris = [] then Inr 0 else Inl AttributeError)"
proof -
  from ls_result[OF assms] obtain name base_name bucket where
    p: "parse_s3_uri (takeWhile (\<lambda>c. \<not> wildcard c) path_glob) = Inr (name, base_name)" and
    b: "fst (get_bucket self name w) = Inr bucket" and
    u: "uris = filter (\<lambda>uri. fnmatchcase uri path_glob
                          \<or> fnmatchcase uri (path_glob @ (if endswith path_glob ''/'' then ''*'' else ''/*'')))
                 (map (key_uri (urlparse_scheme path_glob) name) (objects_filter w bucket base_name))"
    by blast
  have k: "\<And>key. parse_s3_uri (key_uri (urlparse_scheme path_glob) name key) = Inr (name, key)"
    using parse_key_uri[OF p, of "dropWhile (\<lambda>c. \<not> wildcard c) path_glob"] by simp
  obtain w1 where l: "ls self path_glob w = (Inr uris, w1)"
    using assms by (cases "ls self path_glob w") simp
  have w1: "w1 = w\<lparr>trace := trace w1\<rparr>"
    using ls_frame[of self path_glob w] by (simp add: l)
  have b1: "fst (get_bucket self name w1) = Inr bucket"
    by (subst w1) (simp only: get_bucket_trace_irrelevant b)
  show ?thesis
  proof (cases uris)
    case Nil
    then show ?thesis by (simp add: du_def and_then_def l)
  next
    case (Cons uri rest)
    then have "uri \<in> set uris" by simp
    then obtain key where "uri = key_uri (urlparse_scheme path_glob) name key"
      unfolding u by auto
    then have "parse_s3_uri uri = Inr (name, key)" by (simp add: k)
    from get_s3_key_resolved_bucket_raises[OF this b1] Cons show ?thesis
      by (simp add: du_def and_then_def l)
  qed
qed

text \<open>
  C8, on the code: over the three objects under \<^verbatim>\<open>data/\<close>, of sizes 10, 20 and 30,
  \<^verbatim>\<open>du\<close> raises \<^verbatim>\<open>AttributeError\<close> at the first of them instead of returning 60.
\<close>

theorem du_raises_attribute_error:
  "fst (du fs_default ''s3://walrus/data'' walrus_world) = Inl AttributeError"
  by (simp add: run_defs)

section \<open>Retry classification: what is retried\<close>

text \<open>
  C4, as stated, fails: an error whose code mentions a timeout, such as
  \<^verbatim>\<open>RequestTimeout\<close> with status 400, is classified as retriable although it is none of
  throttling, an expired signature, a 505 or one of the two connection errors.
\<close>

theorem retriable_timeout_code_counterexample:
  "is_retriable_client_error
     (ClientError \<lparr> err_code = Some ''RequestTimeout'', err_status = None,
                    http_status = Some 400 \<rparr>)
   \<and> \<not> spec_retryable
     (ClientError \<lparr> err_code = Some ''RequestTimeout'', err_status = None,
                    http_status = Some 400 \<rparr>)"
  by (simp add: is_retriable_client_error_def spec_retryable_def indicates_throttling_def
      indicates_expired_signature_def has_http_505_def is_connection_reset_def
      is_connection_timed_out_def startswith_def)

text \<open>
  The status test of the code reads a key that botocore does not set: a response with
  HTTP status 505, as botocore raises it, is not classified as retriable.
\<close>

lemma http_505_as_raised_not_retried:
  "has_http_505 (ClientError \<lparr> err_code = Some ''505'', err_status = None,
                                http_status = Some 505 \<rparr>)
   \<and> \<not> is_retriable_client_error
        (ClientError \<lparr> err_code = Some ''505'', err_status = None, http_status = Some 505 \<rparr>)"
  by (simp add: is_retriable_client_error_def has_http_505_def startswith_def)

text \<open>
  C4, amended: for every exception in which no 505 stands, the predicate is true exactly
  when the error code mentions throttling, an expired request or a timeout, or the
  exception is one of the two connection errors, and false for every other exception.
\<close>

theorem retriable_iff_listed_or_timeout:
  assumes "\<not> mentions_505 ex"
  shows "is_retriable_client_error ex
           = (indicates_throttling ex \<or> indicates_expired_signature ex
              \<or> indicates_timeout_code ex
              \<or> is_connection_reset ex \<or> is_connection_timed_out ex)"
  using assms
  by (cases ex)
     (auto simp: is_retriable_client_error_def mentions_505_def indicates_throttling_def
        indicates_expired_signature_def is_connection_reset_def
        is_connection_timed_out_def indicates_timeout_code_def Let_def split: option.splits)

theorem retriable_iff_listed_or_timeout_witness:
  "\<not> mentions_505 (ClientError \<lparr> err_code = Some ''Throttling'', err_status = None,
                                    http_status = Some 400 \<rparr>)
   \<and> is_retriable_client_error
        (ClientError \<lparr> err_code = Some ''Throttling'', err_status = None, http_status = Some 400 \<rparr>)
   \<and> \<not> mentions_505 (ClientError \<lparr> err_code = Some ''NoSuchBucket'', err_status = None,
                                      http_status = Some 404 \<rparr>)
   \<and> \<not> is_retriable_client_error
        (ClientError \<lparr> err_code = Some ''NoSuchBucket'', err_status = None, http_status = Some 404 \<rparr>)"
proof -
  let ?t = "ClientError \<lparr> err_code = Some ''Throttling'', err_status = None, http_status = Some 400 \<rparr>"
  let ?n = "ClientError \<lparr> err_code = Some ''NoSuchBucket'', err_status = None, http_status = Some 404 \<rparr>"
  have t: "\<not> mentions_505 ?t" by (simp add: mentions_505_def)
  have n: "\<not> mentions_505 ?n" by (simp add: mentions_505_def)
  have 1: "is_retriable_client_error ?t"
    unfolding retriable_iff_listed_or_timeout[OF t]
    by (simp add: indicates_throttling_def startswith_def)
  have 2: "\<not> is_retriable_client_error ?n"
    unfolding retriable_iff_listed_or_timeout[OF n]
    by (simp add: indicates_throttling_def indicates_expired_signature_def
        indicates_timeout_code_def is_connection_reset_def is_connection_timed_out_def
        startswith_def)
  from t 1 n 2 show ?thesis by simp
qed

end
